theory Spec2Isabelle
  imports Main
begin

section \<open>Strings and the string built-ins used by update\_feed.js\<close>

text \<open>
  A JavaScript string is a sequence of UTF-16 code units. The development works with the
  code units below 256 (ASCII and Latin-1): a \<^typ>\<open>char\<close> stands for the code unit with
  the same number. Every literal, pattern and separator of update\_feed.js is ASCII.
\<close>

definition isDigit :: "char \<Rightarrow> bool" where
  "isDigit c = (c \<in> set ''0123456789'')"

definition isWordChar :: "char \<Rightarrow> bool" where
  \<comment> \<open>the class \<open>\w\<close> of a regular expression without the unicode flag: \<open>[A-Za-z0-9_]\<close>\<close>
  "isWordChar c =
     (c \<in> set ''ABCDEFGHIJKLMNOPQRSTUVWXYZabcdefghijklmnopqrstuvwxyz0123456789_'')"

definition isWhiteSpace :: "char \<Rightarrow> bool" where
  \<comment> \<open>WhiteSpace and LineTerminator below 256: TAB, LF, VT, FF, CR, SP, NBSP\<close>
  "isWhiteSpace c = ((of_char c :: nat) \<in> {9, 10, 11, 12, 13, 32, 160})"

definition toLowerChar :: "char \<Rightarrow> char" where
  \<comment> \<open>\<open>A\<close>..\<open>Z\<close> and the Latin-1 capitals (192..222 without the multiplication sign 215)
      move up by 32; every other code unit below 256 is left alone\<close>
  "toLowerChar c =
     (let n = (of_char c :: nat)
      in if (65 \<le> n \<and> n \<le> 90) \<or> (192 \<le> n \<and> n \<le> 222 \<and> n \<noteq> 215)
         then char_of (n + 32) else c)"

definition toLowerCase :: "string \<Rightarrow> string" where
  "toLowerCase s = map toLowerChar s"

definition trim :: "string \<Rightarrow> string" where
  "trim s = rev (dropWhile isWhiteSpace (rev (dropWhile isWhiteSpace s)))"

fun startsWith :: "string \<Rightarrow> string \<Rightarrow> bool" where
  "startsWith s [] = True"
| "startsWith [] (p # ps) = False"
| "startsWith (c # cs) (p # ps) = (c = p \<and> startsWith cs ps)"

fun includesStr :: "string \<Rightarrow> string \<Rightarrow> bool" where
  \<comment> \<open>\<open>s.includes(pat)\<close>: try every start position from the left\<close>
  "includesStr [] pat = startsWith [] pat"
| "includesStr (c # cs) pat = (startsWith (c # cs) pat \<or> includesStr cs pat)"

fun join :: "string \<Rightarrow> string list \<Rightarrow> string" where
  \<comment> \<open>\<open>xs.join(sep)\<close> on an array of strings\<close>
  "join sep [] = []"
| "join sep [x] = x"
| "join sep (x # y # ys) = x @ sep @ join sep (y # ys)"

fun split :: "char \<Rightarrow> string \<Rightarrow> string list" where
  \<comment> \<open>\<open>s.split(c)\<close> for a one-character separator: always at least one field\<close>
  "split sep [] = [[]]"
| "split sep (c # cs) =
     (if c = sep then [] # split sep cs
      else (case split sep cs of f # fs \<Rightarrow> (c # f) # fs | [] \<Rightarrow> [[c]]))"

function replaceAll :: "string \<Rightarrow> string \<Rightarrow> string \<Rightarrow> string" where
  \<comment> \<open>\<open>s.replace(/pat/g, rep)\<close> for a pattern that is a literal, non-empty string\<close>
  "replaceAll pat rep [] = []"
| "replaceAll pat rep (c # cs) =
     (if pat \<noteq> [] \<and> startsWith (c # cs) pat
      then rep @ replaceAll pat rep (drop (length pat) (c # cs))
      else c # replaceAll pat rep cs)"
  by pat_completeness auto
termination
  by (relation "measure (\<lambda>(pat, rep, s). length s)") auto

subsection \<open>encodeURIComponent\<close>

definition hexDigit :: "nat \<Rightarrow> char" where
  "hexDigit n = ''0123456789ABCDEF'' ! (n mod 16)"

definition percentByte :: "nat \<Rightarrow> string" where
  "percentByte b = [CHR ''%'', hexDigit (b div 16), hexDigit b]"

definition uriUnreserved :: "char \<Rightarrow> bool" where
  \<comment> \<open>the characters encodeURIComponent leaves alone: letters, digits and \<open>-_.!~*'()\<close>\<close>
  "uriUnreserved c =
     (c \<in> set ''ABCDEFGHIJKLMNOPQRSTUVWXYZabcdefghijklmnopqrstuvwxyz0123456789-_.!~*()''
      \<or> (of_char c :: nat) = 39)"

definition encodeChar :: "char \<Rightarrow> string" where
  \<comment> \<open>the UTF-8 bytes of the code point, each as \<open>%XX\<close>: one byte below 128, two bytes
      from 128 to 255\<close>
  "encodeChar c =
     (let n = (of_char c :: nat)
      in if uriUnreserved c then [c]
         else if n < 128 then percentByte n
         else percentByte (192 + n div 64) @ percentByte (128 + n mod 64))"

definition encodeURIComponent :: "string \<Rightarrow> string" where
  "encodeURIComponent s = concat (map encodeChar s)"

definition encodeQuery :: "string \<Rightarrow> string" where
  "encodeQuery q = replaceAll ''%20'' ''%20'' (encodeURIComponent q)"

section \<open>Field deriver\<close>

subsection \<open>guessVintage\<close>

text \<open>
  The regular expression \<open>/\b(18|19|20)\d{2}\b/\<close> is run from every start position in
  turn, left to right. Both assertions \<open>\b\<close> compare the character before a position
  with the character at it; outside the string there is no word character.
\<close>

definition wordBoundary :: "char option \<Rightarrow> char option \<Rightarrow> bool" where
  "wordBoundary prev at =
     ((case prev of None \<Rightarrow> False | Some c \<Rightarrow> isWordChar c)
      \<noteq> (case at of None \<Rightarrow> False | Some c \<Rightarrow> isWordChar c))"

definition headOpt :: "string \<Rightarrow> char option" where
  "headOpt s = (case s of [] \<Rightarrow> None | c # _ \<Rightarrow> Some c)"

definition matchHere :: "char option \<Rightarrow> string \<Rightarrow> string option" where
  \<comment> \<open>one attempt of the pattern at the start of \<open>rest\<close>, with \<open>prev\<close> the character
      in front of it\<close>
  "matchHere prev rest =
     (if \<not> wordBoundary prev (headOpt rest) then None
      else (case rest of
              c1 # c2 # c3 # c4 # after \<Rightarrow>
                if ([c1, c2] = ''18'' \<or> [c1, c2] = ''19'' \<or> [c1, c2] = ''20'')
                   \<and> isDigit c3 \<and> isDigit c4 \<and> wordBoundary (Some c4) (headOpt after)
                then Some [c1, c2, c3, c4] else None
            | _ \<Rightarrow> None))"

fun search :: "char option \<Rightarrow> string \<Rightarrow> string option" where
  "search prev [] = matchHere prev []"
| "search prev (c # cs) =
     (case matchHere prev (c # cs) of
        Some m \<Rightarrow> Some m
      | None \<Rightarrow> search (Some c) cs)"

definition guessVintage :: "string \<Rightarrow> string" where
  "guessVintage name = (case search None name of Some m \<Rightarrow> m | None \<Rightarrow> ''NV'')"

subsection \<open>guessUnitSize\<close>

definition guessUnitSize :: "string \<Rightarrow> string" where
  "guessUnitSize name =
     (let n = toLowerCase name
      in if includesStr n ''magnum'' \<or> includesStr n ''1.5l'' \<or> includesStr n ''1500''
         then ''1.5L Magnum''
         else if includesStr n ''375'' then ''375ml''
         else if includesStr n ''500'' then ''500ml''
         else if includesStr n ''1l'' \<or> includesStr n ''1000'' then ''1L''
         else if includesStr n ''3l'' then ''3L''
         else ''750ml'')"

section \<open>Numbers\<close>

text \<open>
  A JavaScript number is a binary64 float. The two conversions of update\_feed.js read a
  decimal numeral and print one, so a finite number is kept here as an exact decimal:
  \<open>Fin m e\<close> is the value \<open>m / 10 ^ e\<close>. The decimal and the float print the same
  whenever the numeral has at most fifteen significant digits, which is the range the
  statements below speak about; negative zero prints as \<open>0\<close> in both.
\<close>

datatype jsnum = Fin int nat | NaN | Infinity bool

definition digitChar :: "nat \<Rightarrow> char" where
  "digitChar d = ''0123456789'' ! (d mod 10)"

definition digitVal :: "char \<Rightarrow> nat" where
  "digitVal c = of_char c - 48"

fun natDigits :: "nat \<Rightarrow> string" where
  \<comment> \<open>the decimal numeral of a natural number, without leading zeros\<close>
  "natDigits n = (if n < 10 then [digitChar n] else natDigits (n div 10) @ [digitChar n])"

declare natDigits.simps [simp del]

definition digitsVal :: "string \<Rightarrow> nat" where
  "digitsVal ds = foldl (\<lambda>acc c. 10 * acc + digitVal c) 0 ds"

subsection \<open>Number(string)\<close>

text \<open>
  The grammar of StringToNumber: optional white space around either nothing (the value
  is zero), a signed decimal literal (digits, an optional fraction, an optional exponent,
  or \<open>Infinity\<close>) or an unsigned literal in base 16, 8 or 2. Anything else is \<open>NaN\<close>.
\<close>

definition scaled :: "bool \<Rightarrow> nat \<Rightarrow> int \<Rightarrow> jsnum" where
  \<comment> \<open>the number \<open>m * 10 ^ x\<close>, negated when \<open>neg\<close>\<close>
  "scaled neg m x =
     (let sm = (if neg then - int m else int m)
      in if 0 \<le> x then Fin (sm * 10 ^ nat x) 0 else Fin sm (nat (- x)))"

definition exponentPart :: "string \<Rightarrow> int option" where
  \<comment> \<open>\<open>None\<close> when the text after the digits is not a well-formed exponent\<close>
  "exponentPart r =
     (case r of
        [] \<Rightarrow> Some 0
      | c # r1 \<Rightarrow>
          if c = CHR ''e'' \<or> c = CHR ''E'' then
            (let neg = (case r1 of s # _ \<Rightarrow> s = CHR ''-'' | [] \<Rightarrow> False);
                 ds = (case r1 of s # r2 \<Rightarrow> if s = CHR ''+'' \<or> s = CHR ''-'' then r2 else r1
                                | [] \<Rightarrow> [])
             in if ds \<noteq> [] \<and> list_all isDigit ds
                then Some (if neg then - int (digitsVal ds) else int (digitsVal ds))
                else None)
          else None)"

definition unsignedDecimal :: "bool \<Rightarrow> string \<Rightarrow> jsnum" where
  "unsignedDecimal neg r =
     (if r = ''Infinity'' then Infinity neg
      else
        (let ip = takeWhile isDigit r;
             r1 = dropWhile isDigit r;
             fp = (case r1 of c # r2 \<Rightarrow> if c = CHR ''.'' then takeWhile isDigit r2 else []
                            | [] \<Rightarrow> []);
             r3 = (case r1 of c # r2 \<Rightarrow> if c = CHR ''.'' then dropWhile isDigit r2 else r1
                            | [] \<Rightarrow> [])
         in if ip = [] \<and> fp = [] then NaN
            else (case exponentPart r3 of
                    None \<Rightarrow> NaN
                  | Some x \<Rightarrow> scaled neg (digitsVal (ip @ fp)) (x - int (length fp)))))"

definition radixDigitVal :: "char \<Rightarrow> nat" where
  "radixDigitVal c =
     (let n = (of_char c :: nat)
      in if 48 \<le> n \<and> n \<le> 57 then n - 48
         else if 65 \<le> n \<and> n \<le> 70 then n - 55
         else if 97 \<le> n \<and> n \<le> 102 then n - 87
         else 16)"

definition nonDecimal :: "string \<Rightarrow> nat option" where
  \<comment> \<open>\<open>0x\<close>, \<open>0o\<close> and \<open>0b\<close> literals; \<open>None\<close> when the text is not one of them\<close>
  "nonDecimal t =
     (case t of
        z # k # ds \<Rightarrow>
          (let radix = (if k = CHR ''x'' \<or> k = CHR ''X'' then 16
                        else if k = CHR ''o'' \<or> k = CHR ''O'' then 8
                        else if k = CHR ''b'' \<or> k = CHR ''B'' then 2 else (0::nat))
           in if z = CHR ''0'' \<and> radix \<noteq> 0 \<and> ds \<noteq> []
                 \<and> list_all (\<lambda>c. radixDigitVal c < radix) ds
              then Some (foldl (\<lambda>acc c. radix * acc + radixDigitVal c) 0 ds)
              else None)
      | _ \<Rightarrow> None)"

definition StringToNumber :: "string \<Rightarrow> jsnum" where
  "StringToNumber s =
     (let t = trim s
      in if t = [] then Fin 0 0
         else (case nonDecimal t of
                 Some n \<Rightarrow> Fin (int n) 0
               | None \<Rightarrow>
                   (case t of
                      c # r \<Rightarrow>
                        if c = CHR ''+'' then unsignedDecimal False r
                        else if c = CHR ''-'' then unsignedDecimal True r
                        else unsignedDecimal False t
                    | [] \<Rightarrow> Fin 0 0)))"

subsection \<open>String(number)\<close>

text \<open>
  Number::toString in radix 10. With \<open>s\<close> the digits of the value without trailing
  zeros, \<open>k\<close> their count and \<open>n\<close> the position of the decimal point counted from the
  first digit, the value is \<open>s * 10 ^ (n - k)\<close>, and the four layouts of the standard
  follow: plain integer, digits with a point inside, \<open>0.\<close> with leading zeros, and
  exponent notation outside \<open>10^-6 .. 10^21\<close>.
\<close>

definition positiveToString :: "nat \<Rightarrow> nat \<Rightarrow> string" where
  "positiveToString m e =
     (let ds = natDigits m;
          z = length (takeWhile (\<lambda>c. c = CHR ''0'') (rev ds));
          s = take (length ds - z) ds;
          k = int (length s);
          n = int (length ds) - int e
      in if k \<le> n \<and> n \<le> 21 then s @ replicate (nat (n - k)) (CHR ''0'')
         else if 0 < n \<and> n \<le> 21 then take (nat n) s @ ''.'' @ drop (nat n) s
         else if - 6 < n \<and> n \<le> 0 then ''0.'' @ replicate (nat (- n)) (CHR ''0'') @ s
         else (let x = n - 1;
                   ex = (if x < 0 then ''-'' else ''+'') @ natDigits (nat \<bar>x\<bar>)
               in if k = 1 then s @ ''e'' @ ex
                  else take 1 s @ ''.'' @ drop 1 s @ ''e'' @ ex))"

definition NumberToString :: "jsnum \<Rightarrow> string" where
  "NumberToString x =
     (case x of
        NaN \<Rightarrow> ''NaN''
      | Infinity neg \<Rightarrow> (if neg then ''-Infinity'' else ''Infinity'')
      | Fin m e \<Rightarrow>
          if m = 0 then ''0''
          else if m < 0 then ''-'' @ positiveToString (nat (- m)) e
          else positiveToString (nat m) e)"

subsection \<open>centsToDollars\<close>

text \<open>
  \<open>(Number(cents || 0) / 100).toFixed(2)\<close>. The amount is the integer of a money
  object; an absent amount and the amount zero are both falsy and become \<open>0\<close>.
  toFixed(2) prints the integer \<open>h\<close> nearest to a hundred times its receiver, padded
  to three digits, with a point before the last two. The receiver is the float nearest
  to \<open>cents / 100\<close>, and for \<open>\<bar>cents\<bar> < 2 ^ 52\<close> it lies closer to \<open>cents / 100\<close> than
  half a hundredth, so \<open>h\<close> is \<open>\<bar>cents\<bar>\<close>: this is the range \<open>toFixed2\<close> stands for.
\<close>

definition toFixed2 :: "int \<Rightarrow> string" where
  "toFixed2 h =
     (let m0 = natDigits (nat \<bar>h\<bar>);
          m = replicate (3 - length m0) (CHR ''0'') @ m0;
          k = length m
      in (if h < 0 then ''-'' else []) @ take (k - 2) m @ ''.'' @ drop (k - 2) m)"

definition centsToDollars :: "int option \<Rightarrow> string" where
  "centsToDollars cents = toFixed2 (case cents of None \<Rightarrow> 0 | Some c \<Rightarrow> c)"

section \<open>Data model\<close>

text \<open>
  The two responses of the commerce API, with the fields update\_feed.js reads. A field
  the code reads through \<open>?.\<close> or defaults with \<open>||\<close> may be absent and is an
  \<open>option\<close>. Field names carry a prefix that tells the object they belong to:
  \<open>vd_sku\<close> is \<open>item_variation_data.sku\<close>, \<open>v_id\<close> is the \<open>id\<close> of a variation,
  \<open>r_type\<close> the \<open>type\<close> of a related object, \<open>c_quantity\<close> the \<open>quantity\<close> of a count
  (a decimal string in this API), \<open>u_name\<close> the \<open>name\<close> of a usable row.
\<close>

record money =
  amount :: "int option"

record item_variation_data =
  vd_item_id :: "string option"
  vd_sku :: "string option"
  vd_name :: "string option"
  vd_price_money :: "money option"

record variation =
  v_id :: string
  v_item_variation_data :: "item_variation_data option"

record item_data =
  i_name :: "string option"

record related_object =
  r_type :: string
  r_id :: string
  r_item_data :: "item_data option"

record catalog_response =
  objects :: "variation list option"
  related_objects :: "related_object list option"

record inventory_count =
  c_catalog_object_id :: string
  c_quantity :: "string option"

record inventory_response =
  counts :: "inventory_count list option"

record usable_row =
  u_sku :: string
  u_name :: string
  u_variationId :: string
  u_price :: string
  u_imageUrl :: "string option"

section \<open>Catalog join\<close>

definition orEmpty :: "string option \<Rightarrow> string" where
  \<comment> \<open>\<open>x || ""\<close> on an optional string\<close>
  "orEmpty x = (case x of None \<Rightarrow> [] | Some s \<Rightarrow> s)"

fun itemNames :: "related_object list \<Rightarrow> (string \<rightharpoonup> string) \<Rightarrow> (string \<rightharpoonup> string)" where
  \<comment> \<open>the loop that fills \<open>itemNameById\<close>: a later object with the same id overwrites\<close>
  "itemNames [] m = m"
| "itemNames (obj # objs) m =
     (if r_type obj = ''ITEM''
      then itemNames objs
             (m(r_id obj \<mapsto>
                  orEmpty (case r_item_data obj of None \<Rightarrow> None | Some i \<Rightarrow> i_name i)))
      else itemNames objs m)"

definition composeName :: "string \<Rightarrow> string \<Rightarrow> string" where
  \<comment> \<open>\<open>fullName\<close> from \<open>itemName\<close> and \<open>varName\<close>\<close>
  "composeName itemName varName =
     (if varName \<noteq> [] \<and> toLowerCase varName \<noteq> ''regular''
      then trim (itemName @ '' '' @ varName)
      else trim itemName)"

definition usableOf :: "(string \<rightharpoonup> string) \<Rightarrow> variation \<Rightarrow> usable_row option" where
  \<comment> \<open>one turn of the loop over the variations: \<open>None\<close> is \<open>continue\<close>\<close>
  "usableOf itemNameById v =
     (let d = v_item_variation_data v;
          sku = (case d of None \<Rightarrow> None | Some dd \<Rightarrow> vd_sku dd)
      in case sku of
           None \<Rightarrow> None
         | Some sk \<Rightarrow>
             if sk = [] then None
             else
               (let itemId = (case d of None \<Rightarrow> None | Some dd \<Rightarrow> vd_item_id dd);
                    itemName = orEmpty (case itemId of None \<Rightarrow> None | Some i \<Rightarrow> itemNameById i);
                    varName = orEmpty (case d of None \<Rightarrow> None | Some dd \<Rightarrow> vd_name dd);
                    fullName = composeName itemName varName
                in Some \<lparr> u_sku = sk,
                          u_name = (if fullName = [] then sk else fullName),
                          u_variationId = v_id v,
                          u_price = centsToDollars
                                      (case d of None \<Rightarrow> None
                                       | Some dd \<Rightarrow> (case vd_price_money dd of None \<Rightarrow> None
                                                     | Some pm \<Rightarrow> amount pm)),
                          u_imageUrl = None \<rparr>))"

fun usableLoop :: "(string \<rightharpoonup> string) \<Rightarrow> variation list \<Rightarrow> usable_row list \<Rightarrow> usable_row list" where
  \<comment> \<open>the array \<open>usable\<close> grows at its end\<close>
  "usableLoop m [] usable = usable"
| "usableLoop m (v # vs) usable =
     (case usableOf m v of
        None \<Rightarrow> usableLoop m vs usable
      | Some u \<Rightarrow> usableLoop m vs (usable @ [u]))"

definition orNil :: "'a list option \<Rightarrow> 'a list" where
  \<comment> \<open>\<open>xs || []\<close>\<close>
  "orNil xs = (case xs of None \<Rightarrow> [] | Some ys \<Rightarrow> ys)"

definition catalogJoin :: "catalog_response \<Rightarrow> usable_row list" where
  "catalogJoin cat =
     usableLoop (itemNames (orNil (related_objects cat)) Map.empty) (orNil (objects cat)) []"

section \<open>Inventory join\<close>

definition quantityNumber :: "string option \<Rightarrow> jsnum" where
  \<comment> \<open>\<open>Number(c.quantity || 0)\<close>: an absent quantity and the empty string are falsy\<close>
  "quantityNumber q =
     (case q of None \<Rightarrow> Fin 0 0 | Some s \<Rightarrow> if s = [] then Fin 0 0 else StringToNumber s)"

fun stockMap :: "inventory_count list \<Rightarrow> (string \<rightharpoonup> string) \<Rightarrow> (string \<rightharpoonup> string)" where
  \<comment> \<open>the loop that fills \<open>stockByVarId\<close>\<close>
  "stockMap [] m = m"
| "stockMap (c # cs) m =
     stockMap cs (m(c_catalog_object_id c \<mapsto> NumberToString (quantityNumber (c_quantity c))))"

definition stockByVarId :: "inventory_response \<Rightarrow> (string \<rightharpoonup> string)" where
  "stockByVarId invResp = stockMap (orNil (counts invResp)) Map.empty"

definition stockOf :: "(string \<rightharpoonup> string) \<Rightarrow> usable_row \<Rightarrow> string" where
  \<comment> \<open>\<open>stockByVarId.get(u.variationId) ?? "0"\<close>\<close>
  "stockOf m u = (case m (u_variationId u) of None \<Rightarrow> ''0'' | Some s \<Rightarrow> s)"

section \<open>Feed writer\<close>

definition header :: string where
  "header = ''SKU|name|description|vintage|unit-size|price|stock|url|min-order|tax|offer-type|delivery-time|LWIN|imageurl''"

definition OUT :: string where "OUT = ''winesearcher-feed.txt''"
definition TAX :: string where "TAX = ''Inc.tax''"
definition OFFER :: string where "OFFER = ''R''"
definition DELIVERY :: string where "DELIVERY = ''Next day''"
definition SHOP_SEARCH_BASE :: string where
  "SHOP_SEARCH_BASE = ''https://www.magazzinonyc.com/s/shop?query=''"

definition rowFields :: "(string \<rightharpoonup> string) \<Rightarrow> usable_row \<Rightarrow> string list" where
  "rowFields stock u =
     [u_sku u, u_name u, [], guessVintage (u_name u), guessUnitSize (u_name u), u_price u,
      stockOf stock u, SHOP_SEARCH_BASE @ encodeQuery (u_name u), [], TAX, OFFER, DELIVERY,
      [], []]"

definition row :: "(string \<rightharpoonup> string) \<Rightarrow> usable_row \<Rightarrow> string" where
  "row stock u = join ''|'' (rowFields stock u)"

fun linesLoop :: "(string \<rightharpoonup> string) \<Rightarrow> usable_row list \<Rightarrow> string list \<Rightarrow> string list" where
  "linesLoop stock [] lines = lines"
| "linesLoop stock (u # us) lines = linesLoop stock us (lines @ [row stock u])"

definition feedLines :: "(string \<rightharpoonup> string) \<Rightarrow> usable_row list \<Rightarrow> string list" where
  "feedLines stock usable = linesLoop stock usable [header]"

definition fileContent :: "(string \<rightharpoonup> string) \<Rightarrow> usable_row list \<Rightarrow> string" where
  \<comment> \<open>\<open>lines.join("\n") + "\n"\<close>\<close>
  "fileContent stock usable = join [CHR 0x0A] (feedLines stock usable) @ [CHR 0x0A]"

section \<open>The pipeline and its effects\<close>

text \<open>
  What the program does to the outside is a list of events, in the order they happen, and
  an exit status. The outside answers through a \<open>world\<close>: what \<open>fetch\<close> and
  \<open>res.text()\<close> give for a request (a response, or a rejection), what \<open>JSON.parse\<close>
  makes of a body (a response with the fields of the data model, or the error thrown for
  a body that is not such a response), and whether \<open>fs.writeFileSync\<close> throws. An \<open>Error\<close> is one update\_feed.js constructs itself, with its message; a
  \<open>Thrown\<close> value comes from the platform. A write that throws is taken to leave no
  file behind: the event \<open>WriteFile\<close> stands for a write that completed.
\<close>

datatype js_error = Error string | Thrown string

datatype body =
    CatalogSearch "string list" bool nat
  | RetrieveCounts "string list" "string list" "string list"

record request =
  rq_url :: string
  rq_method :: string
  rq_authorization :: string
  rq_square_version :: string
  rq_content_type :: string
  rq_body :: "body option"

record http_response =
  res_ok :: bool
  res_status :: nat
  res_text :: string

datatype event =
    Fetch request
  | WriteFile string string
  | ConsoleLog string
  | ConsoleError js_error
  | Uncaught js_error

record world =
  w_fetch :: "request \<Rightarrow> js_error + http_response"
  w_parseCatalog :: "string \<Rightarrow> js_error + catalog_response"
  w_parseInventory :: "string \<Rightarrow> js_error + inventory_response"
  w_writeFileSync :: "string \<Rightarrow> string \<Rightarrow> js_error option"

definition SQUARE_VERSION :: string where "SQUARE_VERSION = ''2024-01-18''"

definition requestOf :: "string \<Rightarrow> string \<Rightarrow> body option \<Rightarrow> request" where
  \<comment> \<open>the arguments of \<open>fetch\<close> in \<open>squareFetch\<close>\<close>
  "requestOf token path b =
     \<lparr> rq_url = ''https://connect.squareup.com'' @ path,
       rq_method = (case b of None \<Rightarrow> ''GET'' | Some _ \<Rightarrow> ''POST''),
       rq_authorization = ''Bearer '' @ token,
       rq_square_version = SQUARE_VERSION,
       rq_content_type = ''application/json'',
       rq_body = b \<rparr>"

definition squareFetch ::
  "world \<Rightarrow> string \<Rightarrow> string \<Rightarrow> body option \<Rightarrow> (string \<Rightarrow> js_error + 'a)
   \<Rightarrow> event list \<times> (js_error + 'a)" where
  "squareFetch w token path b parse =
     (let rq = requestOf token path b
      in ([Fetch rq],
          (case w_fetch w rq of
             Inl e \<Rightarrow> Inl e
           | Inr res \<Rightarrow>
               if \<not> res_ok res
               then Inl (Error (''Square API '' @ natDigits (res_status res) @ '': ''
                                @ res_text res))
               else parse (res_text res))))"

definition main :: "world \<Rightarrow> string \<Rightarrow> string \<Rightarrow> event list \<times> (js_error + unit)" where
  "main w token location =
     (case squareFetch w token ''/v2/catalog/search''
             (Some (CatalogSearch [''ITEM_VARIATION''] True 1000)) (w_parseCatalog w) of
        (ev1, Inl e) \<Rightarrow> (ev1, Inl e)
      | (ev1, Inr cat) \<Rightarrow>
          (let usable = catalogJoin cat
           in case squareFetch w token ''/v2/inventory/batch-retrieve-counts''
                     (Some (RetrieveCounts (map u_variationId usable) [location]
                              [''IN_STOCK'']))
                     (w_parseInventory w) of
                (ev2, Inl e) \<Rightarrow> (ev1 @ ev2, Inl e)
              | (ev2, Inr invResp) \<Rightarrow>
                  (let content = fileContent (stockByVarId invResp) usable
                   in case w_writeFileSync w OUT content of
                        Some e \<Rightarrow> (ev1 @ ev2, Inl e)
                      | None \<Rightarrow>
                          (ev1 @ ev2 @
                           [WriteFile OUT content,
                            ConsoleLog (''Wrote '' @ OUT @ '' with ''
                                        @ natDigits (length usable) @ '' rows.'')],
                           Inr ()))))"

definition missing :: "string option \<Rightarrow> bool" where
  \<comment> \<open>\<open>!x\<close> for an environment variable: unset, or set to the empty string\<close>
  "missing x = (case x of None \<Rightarrow> True | Some s \<Rightarrow> s = [])"

definition program :: "world \<Rightarrow> string option \<Rightarrow> string option \<Rightarrow> event list \<times> nat" where
  \<comment> \<open>the module from top to bottom; the second component is the exit status\<close>
  "program w TOKEN LOCATION_ID =
     (if missing TOKEN \<or> missing LOCATION_ID
      then ([Uncaught (Error ''Missing SQUARE_ACCESS_TOKEN or SQUARE_LOCATION_ID secrets.'')], 1)
      else (case main w (orEmpty TOKEN) (orEmpty LOCATION_ID) of
              (evs, Inl e) \<Rightarrow> (evs @ [ConsoleError e], 1)
            | (evs, Inr _) \<Rightarrow> (evs, 0)))"

section \<open>Notions the statements use\<close>

definition isWriteFile :: "event \<Rightarrow> bool" where
  "isWriteFile ev = (case ev of WriteFile _ _ \<Rightarrow> True | _ \<Rightarrow> False)"

definition isFetch :: "event \<Rightarrow> bool" where
  "isFetch ev = (case ev of Fetch _ \<Rightarrow> True | _ \<Rightarrow> False)"

definition usableSku :: "variation \<Rightarrow> string option" where
  \<comment> \<open>the stock-keeping code of a variation record when it has a non-empty one\<close>
  "usableSku v =
     (case v_item_variation_data v of
        None \<Rightarrow> None
      | Some d \<Rightarrow> (case vd_sku d of None \<Rightarrow> None | Some s \<Rightarrow> if s = [] then None else Some s))"

definition countChar :: "char \<Rightarrow> string \<Rightarrow> nat" where
  "countChar c s = length (filter (\<lambda>x. x = c) s)"

definition exVariations :: "variation list" where
  \<comment> \<open>four records: two share a code, one has none, one has the empty code\<close>
  "exVariations =
     [\<lparr> v_id = ''V1'', v_item_variation_data = Some \<lparr> vd_item_id = None, vd_sku = Some ''A1'',
          vd_name = None, vd_price_money = None \<rparr> \<rparr>,
      \<lparr> v_id = ''V2'', v_item_variation_data = Some \<lparr> vd_item_id = None, vd_sku = None,
          vd_name = Some ''Large'', vd_price_money = None \<rparr> \<rparr>,
      \<lparr> v_id = ''V3'', v_item_variation_data = Some \<lparr> vd_item_id = None, vd_sku = Some [],
          vd_name = None, vd_price_money = None \<rparr> \<rparr>,
      \<lparr> v_id = ''V4'', v_item_variation_data = Some \<lparr> vd_item_id = None, vd_sku = Some ''A1'',
          vd_name = None, vd_price_money = None \<rparr> \<rparr>]"

definition isVintageToken :: "string \<Rightarrow> bool" where
  \<comment> \<open>four digits of which the first two are 18, 19 or 20: a year from 1800 to 2099\<close>
  "isVintageToken t =
     (length t = 4 \<and> (take 2 t = ''18'' \<or> take 2 t = ''19'' \<or> take 2 t = ''20'')
      \<and> list_all isDigit t)"

definition standsAlone :: "string \<Rightarrow> string \<Rightarrow> bool" where
  \<comment> \<open>what makes an occurrence between \<open>pre\<close> and \<open>post\<close> a token: no letter, digit or
      underscore touches it on either side\<close>
  "standsAlone pre post =
     ((pre = [] \<or> \<not> isWordChar (last pre)) \<and> (post = [] \<or> \<not> isWordChar (hd post)))"

definition wordPrev :: "char option \<Rightarrow> bool" where
  "wordPrev prev = (case prev of None \<Rightarrow> False | Some c \<Rightarrow> isWordChar c)"

definition leftOk :: "char option \<Rightarrow> string \<Rightarrow> bool" where
  "leftOk prev pre = (if pre = [] then \<not> wordPrev prev else \<not> isWordChar (last pre))"

definition rightOk :: "string \<Rightarrow> bool" where
  "rightOk post = (post = [] \<or> \<not> isWordChar (hd post))"




definition lastItem :: "related_object list \<Rightarrow> string \<Rightarrow> related_object option" where
  \<comment> \<open>the last related object of kind \<open>ITEM\<close> with the identifier \<open>i\<close>\<close>
  "lastItem rel i = find (\<lambda>obj. r_type obj = ''ITEM'' \<and> r_id obj = i) (rev rel)"

definition parentName :: "related_object list \<Rightarrow> variation \<Rightarrow> string" where
  \<comment> \<open>the display name of the parent item; empty when the item, its data or its name is
      not there\<close>
  "parentName rel v =
     (case v_item_variation_data v of
        None \<Rightarrow> []
      | Some d \<Rightarrow>
          (case vd_item_id d of
             None \<Rightarrow> []
           | Some i \<Rightarrow>
               (case lastItem rel i of
                  None \<Rightarrow> []
                | Some obj \<Rightarrow>
                    (case r_item_data obj of None \<Rightarrow> [] | Some it \<Rightarrow> orEmpty (i_name it)))))"

definition variationName :: "variation \<Rightarrow> string" where
  "variationName v =
     (case v_item_variation_data v of None \<Rightarrow> [] | Some d \<Rightarrow> orEmpty (vd_name d))"

definition equalsIgnoringCase :: "string \<Rightarrow> string \<Rightarrow> bool" where
  "equalsIgnoringCase a b = (toLowerCase a = toLowerCase b)"

definition isTrimOf :: "string \<Rightarrow> string \<Rightarrow> bool" where
  \<comment> \<open>\<open>t\<close> is \<open>s\<close> without the white space at its two ends\<close>
  "isTrimOf t s =
     (\<exists>pre post. s = pre @ t @ post \<and> list_all isWhiteSpace pre \<and> list_all isWhiteSpace post
        \<and> (t = [] \<or> (\<not> isWhiteSpace (hd t) \<and> \<not> isWhiteSpace (last t))))"

definition composedFrom :: "related_object list \<Rightarrow> variation \<Rightarrow> usable_row \<Rightarrow> bool" where
  \<comment> \<open>the name of the row \<open>u\<close> is composed from the names around the variation \<open>v\<close>\<close>
  "composedFrom rel v u =
     (\<exists>composed.
        isTrimOf composed
          (if variationName v \<noteq> [] \<and> \<not> equalsIgnoringCase (variationName v) ''regular''
           then parentName rel v @ '' '' @ variationName v
           else parentName rel v)
        \<and> u_name u = (if composed = [] then u_sku u else composed))"

definition exCatalog :: catalog_response where
  "exCatalog =
     \<lparr> objects = Some
         [\<lparr> v_id = ''V1'', v_item_variation_data = Some \<lparr> vd_item_id = Some ''I1'',
              vd_sku = Some ''S1'', vd_name = Some ''Magnum'', vd_price_money = None \<rparr> \<rparr>,
          \<lparr> v_id = ''V2'', v_item_variation_data = Some \<lparr> vd_item_id = Some ''I1'',
              vd_sku = Some ''S2'', vd_name = Some ''REGULAR'', vd_price_money = None \<rparr> \<rparr>,
          \<lparr> v_id = ''V3'', v_item_variation_data = Some \<lparr> vd_item_id = Some ''I9'',
              vd_sku = Some ''S3'', vd_name = None, vd_price_money = None \<rparr> \<rparr>],
       related_objects = Some
         [\<lparr> r_type = ''ITEM'', r_id = ''I1'',
             r_item_data = Some \<lparr> i_name = Some '' Chateau Test'' \<rparr> \<rparr>] \<rparr>"

definition catalogRequest :: "string \<Rightarrow> request" where
  "catalogRequest token =
     requestOf token ''/v2/catalog/search'' (Some (CatalogSearch [''ITEM_VARIATION''] True 1000))"

definition inventoryRequest :: "string \<Rightarrow> string \<Rightarrow> usable_row list \<Rightarrow> request" where
  "inventoryRequest token location usable =
     requestOf token ''/v2/inventory/batch-retrieve-counts''
       (Some (RetrieveCounts (map u_variationId usable) [location] [''IN_STOCK'']))"

definition apiError :: "http_response \<Rightarrow> js_error" where
  \<comment> \<open>the error for a response that is not ok: status code and raw body in its message\<close>
  "apiError res = Error (''Square API '' @ natDigits (res_status res) @ '': '' @ res_text res)"

definition successLog :: "nat \<Rightarrow> string" where
  "successLog n = ''Wrote '' @ OUT @ '' with '' @ natDigits n @ '' rows.''"

definition answered ::
  "world \<Rightarrow> request \<Rightarrow> (string \<Rightarrow> js_error + 'a) \<Rightarrow> js_error + 'a \<Rightarrow> bool" where
  "answered w rq parse r =
     (case r of
        Inl e \<Rightarrow>
          w_fetch w rq = Inl e
          \<or> (\<exists>res. w_fetch w rq = Inr res \<and> \<not> res_ok res \<and> e = apiError res)
          \<or> (\<exists>res. w_fetch w rq = Inr res \<and> res_ok res \<and> parse (res_text res) = Inl e)
      | Inr x \<Rightarrow> (\<exists>res. w_fetch w rq = Inr res \<and> res_ok res \<and> parse (res_text res) = Inr x))"

definition outcome :: "world \<Rightarrow> string \<Rightarrow> string \<Rightarrow> event list \<times> nat \<Rightarrow> bool" where
  \<comment> \<open>the four ways a run with credentials can go: the first request fails, the second
      request fails, the write fails, or nothing fails\<close>
  "outcome w t l run =
     ((\<exists>e. answered w (catalogRequest t) (w_parseCatalog w) (Inl e)
          \<and> run = ([Fetch (catalogRequest t), ConsoleError e], 1))
      \<or> (\<exists>cat e. answered w (catalogRequest t) (w_parseCatalog w) (Inr cat)
            \<and> answered w (inventoryRequest t l (catalogJoin cat)) (w_parseInventory w) (Inl e)
            \<and> run = ([Fetch (catalogRequest t), Fetch (inventoryRequest t l (catalogJoin cat)),
                       ConsoleError e], 1))
      \<or> (\<exists>cat invResp e. answered w (catalogRequest t) (w_parseCatalog w) (Inr cat)
            \<and> answered w (inventoryRequest t l (catalogJoin cat)) (w_parseInventory w)
                  (Inr invResp)
            \<and> w_writeFileSync w OUT (fileContent (stockByVarId invResp) (catalogJoin cat)) = Some e
            \<and> run = ([Fetch (catalogRequest t), Fetch (inventoryRequest t l (catalogJoin cat)),
                       ConsoleError e], 1))
      \<or> (\<exists>cat invResp. answered w (catalogRequest t) (w_parseCatalog w) (Inr cat)
            \<and> answered w (inventoryRequest t l (catalogJoin cat)) (w_parseInventory w)
                  (Inr invResp)
            \<and> w_writeFileSync w OUT (fileContent (stockByVarId invResp) (catalogJoin cat)) = None
            \<and> run = ([Fetch (catalogRequest t), Fetch (inventoryRequest t l (catalogJoin cat)),
                       WriteFile OUT (fileContent (stockByVarId invResp) (catalogJoin cat)),
                       ConsoleLog (successLog (length (catalogJoin cat)))], 0)))"

definition scenarioCatalog :: catalog_response where
  \<comment> \<open>one variation: code \<open>ABC123\<close>, parent \<open>Chateau Test\<close>, name \<open>Regular\<close>, price 2500\<close>
  "scenarioCatalog =
     \<lparr> objects = Some
         [\<lparr> v_id = ''V1'', v_item_variation_data = Some \<lparr> vd_item_id = Some ''I1'',
              vd_sku = Some ''ABC123'', vd_name = Some ''Regular'',
              vd_price_money = Some \<lparr> amount = Some 2500 \<rparr> \<rparr> \<rparr>],
       related_objects = Some
         [\<lparr> r_type = ''ITEM'', r_id = ''I1'',
             r_item_data = Some \<lparr> i_name = Some ''Chateau Test'' \<rparr> \<rparr>] \<rparr>"

definition scenarioInventory :: inventory_response where
  "scenarioInventory =
     \<lparr> counts = Some [\<lparr> c_catalog_object_id = ''V1'', c_quantity = Some ''7'' \<rparr>] \<rparr>"

definition scenarioWorld :: world where
  \<comment> \<open>every request is answered with status 200, and the two bodies parse to the catalog and
      to the inventory of the scenario\<close>
  "scenarioWorld =
     \<lparr> w_fetch = (\<lambda>rq. Inr \<lparr> res_ok = True, res_status = 200, res_text = rq_url rq \<rparr>),
       w_parseCatalog = (\<lambda>txt. Inr scenarioCatalog),
       w_parseInventory = (\<lambda>txt. Inr scenarioInventory),
       w_writeFileSync = (\<lambda>path content. None) \<rparr>"

definition scenarioRow :: usable_row where
  "scenarioRow = \<lparr> u_sku = ''ABC123'', u_name = ''Chateau Test'', u_variationId = ''V1'',
                     u_price = ''25.00'', u_imageUrl = None \<rparr>"

definition unauthorizedWorld :: world where
  \<comment> \<open>every request is answered with status 401\<close>
  "unauthorizedWorld =
     \<lparr> w_fetch = (\<lambda>rq. Inr \<lparr> res_ok = False, res_status = 401, res_text = ''Unauthorized'' \<rparr>),
       w_parseCatalog = (\<lambda>txt. Inl (Thrown ''SyntaxError'')),
       w_parseInventory = (\<lambda>txt. Inl (Thrown ''SyntaxError'')),
       w_writeFileSync = (\<lambda>path content. None) \<rparr>"

section \<open>Lemmas about the string built-ins\<close>

lemma startsWith_iff: "startsWith s p \<longleftrightarrow> (\<exists>post. s = p @ post)"
  by (induction s p rule: startsWith.induct) auto

lemma includesStr_iff: "includesStr s p \<longleftrightarrow> (\<exists>pre post. s = pre @ p @ post)"
proof (induction s)
  case Nil
  then show ?case by (simp add: startsWith_iff)
next
  case (Cons c cs)
  show ?case
  proof
    assume "includesStr (c # cs) p"
    then consider "startsWith (c # cs) p" | "includesStr cs p" by auto
    then show "\<exists>pre post. c # cs = pre @ p @ post"
    proof cases
      case 1
      then obtain post where "c # cs = p @ post" by (auto simp: startsWith_iff)
      then have "c # cs = [] @ p @ post" by simp
      then show ?thesis by blast
    next
      case 2
      then obtain pre post where "cs = pre @ p @ post" using Cons.IH by blast
      then have "c # cs = (c # pre) @ p @ post" by simp
      then show ?thesis by blast
    qed
  next
    assume "\<exists>pre post. c # cs = pre @ p @ post"
    then obtain pre post where e: "c # cs = pre @ p @ post" by blast
    show "includesStr (c # cs) p"
    proof (cases pre)
      case Nil
      then have "startsWith (c # cs) p" using e by (simp add: startsWith_iff)
      then show ?thesis by simp
    next
      case (Cons a pre')
      then have "cs = pre' @ p @ post" using e by simp
      then show ?thesis using Cons.IH by auto
    qed
  qed
qed

lemma join_Cons: "join sep (x # xs) = x @ concat (map (\<lambda>y. sep @ y) xs)"
  by (induction xs arbitrary: x) auto

lemma length_split: "length (split sep s) = Suc (countChar sep s)"
  by (induction s) (auto simp: countChar_def split: list.splits)

lemma countChar_append: "countChar c (a @ b) = countChar c a + countChar c b"
  by (simp add: countChar_def)

lemma countChar_join:
  "countChar c (join [c] (f # fs)) = length fs + sum_list (map (countChar c) (f # fs))"
  by (induction fs arbitrary: f) (auto simp: countChar_append, simp add: countChar_def)

lemma countChar_mem: "c \<in> set s \<Longrightarrow> 1 \<le> countChar c s"
  by (induction s) (auto simp: countChar_def)

section \<open>The loops as list functions\<close>

lemma linesLoop_eq: "linesLoop stock us acc = acc @ map (row stock) us"
  by (induction us arbitrary: acc) auto

lemma usableLoop_eq: "usableLoop m vs acc = acc @ List.map_filter (usableOf m) vs"
  by (induction vs arbitrary: acc) (auto simp: List.map_filter_simps split: option.splits)

lemma catalogJoin_eq:
  "catalogJoin cat
   = List.map_filter (usableOf (itemNames (orNil (related_objects cat)) Map.empty))
       (orNil (objects cat))"
  by (simp add: catalogJoin_def usableLoop_eq)

lemma in_map_filter: "u \<in> set (List.map_filter f xs) \<longleftrightarrow> (\<exists>x \<in> set xs. f x = Some u)"
  by (induction xs) (auto simp: List.map_filter_simps split: option.splits)

lemma usableOf_None_iff: "usableOf m v = None \<longleftrightarrow> usableSku v = None"
  by (simp add: usableOf_def usableSku_def Let_def split: option.splits)

lemma usableOf_Some_sku: "usableOf m v = Some u \<Longrightarrow> usableSku v = Some (u_sku u)"
  by (auto simp: usableOf_def usableSku_def Let_def split: option.splits if_splits)

lemma usableOf_Some_id: "usableOf m v = Some u \<Longrightarrow> u_variationId u = v_id v"
  by (auto simp: usableOf_def Let_def split: option.splits if_splits)

lemma usableSku_nonempty: "usableSku v = Some s \<Longrightarrow> s \<noteq> []"
  by (auto simp: usableSku_def split: option.splits if_splits)

lemma map_filter_sku:
  "map u_sku (List.map_filter (usableOf m) vs) = List.map_filter usableSku vs"
proof (induction vs)
  case Nil
  show ?case by (simp add: List.map_filter_simps)
next
  case (Cons v vs)
  show ?case
  proof (cases "usableOf m v")
    case None
    then have "usableSku v = None" by (simp add: usableOf_None_iff)
    with None Cons show ?thesis by (simp add: List.map_filter_simps)
  next
    case (Some u)
    then have "usableSku v = Some (u_sku u)" by (rule usableOf_Some_sku)
    with Some Cons show ?thesis by (simp add: List.map_filter_simps)
  qed
qed

lemma map_filter_ids:
  "map u_variationId (List.map_filter (usableOf m) vs)
   = map v_id (filter (\<lambda>v. usableSku v \<noteq> None) vs)"
proof (induction vs)
  case Nil
  show ?case by (simp add: List.map_filter_simps)
next
  case (Cons v vs)
  show ?case
  proof (cases "usableOf m v")
    case None
    then have "usableSku v = None" by (simp add: usableOf_None_iff)
    with None Cons show ?thesis by (simp add: List.map_filter_simps)
  next
    case (Some u)
    then have "usableSku v = Some (u_sku u)" "u_variationId u = v_id v"
      by (simp_all add: usableOf_Some_sku usableOf_Some_id)
    with Some Cons show ?thesis by (simp add: List.map_filter_simps)
  qed
qed

section \<open>Unit size\<close>

text \<open>
  C4. For every display name, unit-size inference lower-cases the name and looks for
  substrings in a fixed order, the first hit deciding: \<open>magnum\<close>, \<open>1.5l\<close> or \<open>1500\<close> give
  \<open>1.5L Magnum\<close>; else \<open>375\<close> gives \<open>375ml\<close>; else \<open>500\<close> gives \<open>500ml\<close>; else \<open>1l\<close> or
  \<open>1000\<close> give \<open>1L\<close>; else \<open>3l\<close> gives \<open>3L\<close>; else the result is \<open>750ml\<close>. Containment is
  stated as a decomposition of the lower-cased name, not through the search loop.
\<close>

theorem guessUnitSize_first_match_wins:
  "guessUnitSize name =
     (let n = toLowerCase name; has = (\<lambda>p. \<exists>pre post. n = pre @ p @ post)
      in if has ''magnum'' \<or> has ''1.5l'' \<or> has ''1500'' then ''1.5L Magnum''
         else if has ''375'' then ''375ml''
         else if has ''500'' then ''500ml''
         else if has ''1l'' \<or> has ''1000'' then ''1L''
         else if has ''3l'' then ''3L''
         else ''750ml'')"
  by (simp add: guessUnitSize_def includesStr_iff Let_def)

text \<open>A name with both \<open>magnum\<close> and \<open>375\<close> in it is a magnum.\<close>

theorem guessUnitSize_magnum_over_375: "guessUnitSize ''Magnum 375'' = ''1.5L Magnum''"
proof -
  have l: "toLowerCase ''Magnum 375'' = ''magnum 375''" by code_simp
  have "''magnum 375'' = [] @ ''magnum'' @ '' 375''" by simp
  then have "\<exists>pre post. toLowerCase ''Magnum 375'' = pre @ ''magnum'' @ post"
    unfolding l by blast
  then show ?thesis
    using guessUnitSize_first_match_wins [of "''Magnum 375''"] by (simp add: Let_def)
qed

section \<open>Catalog join: which variations become rows\<close>

text \<open>
  C5. For every list of variation records, the catalog join drops exactly the records
  without a non-empty stock-keeping code: the codes of the usable rows are the non-empty
  codes of the input, in input order and with repetitions kept, the variation identifiers
  are those of the records that have such a code, and no usable row has an empty code.
\<close>

theorem catalogJoin_keeps_sku_variations:
  "map u_sku (catalogJoin cat) = List.map_filter usableSku (orNil (objects cat))
   \<and> map u_variationId (catalogJoin cat)
       = map v_id (filter (\<lambda>v. usableSku v \<noteq> None) (orNil (objects cat)))
   \<and> (\<forall>u \<in> set (catalogJoin cat). u_sku u \<noteq> [])"
proof (intro conjI ballI)
  show "map u_sku (catalogJoin cat) = List.map_filter usableSku (orNil (objects cat))"
    by (simp add: catalogJoin_eq map_filter_sku)
  show "map u_variationId (catalogJoin cat)
        = map v_id (filter (\<lambda>v. usableSku v \<noteq> None) (orNil (objects cat)))"
    by (simp add: catalogJoin_eq map_filter_ids)
next
  fix u assume "u \<in> set (catalogJoin cat)"
  then obtain v where "usableOf (itemNames (orNil (related_objects cat)) Map.empty) v = Some u"
    by (auto simp: catalogJoin_eq in_map_filter)
  then show "u_sku u \<noteq> []"
    using usableOf_Some_sku usableSku_nonempty by blast
qed

text \<open>
  Of the four records of \<open>exVariations\<close> the second and third are dropped, and the
  repeated code \<open>A1\<close> appears twice.
\<close>

theorem catalogJoin_keeps_duplicate_skus:
  "map u_sku (catalogJoin \<lparr> objects = Some exVariations, related_objects = None \<rparr>)
     = [''A1'', ''A1'']
   \<and> map u_variationId (catalogJoin \<lparr> objects = Some exVariations, related_objects = None \<rparr>)
     = [''V1'', ''V4'']"
proof -
  have "List.map_filter usableSku exVariations = [''A1'', ''A1'']" by code_simp
  moreover have "map v_id (filter (\<lambda>v. usableSku v \<noteq> None) exVariations) = [''V1'', ''V4'']"
    by code_simp
  ultimately show ?thesis
    using catalogJoin_keeps_sku_variations
            [of "\<lparr> objects = Some exVariations, related_objects = None \<rparr>"]
    by (simp add: orNil_def)
qed

section \<open>Feed writer\<close>

text \<open>
  C7. For every sequence of usable rows, empty or not, the written text starts with the
  header line \<open>SKU|name|description|vintage|unit-size|price|stock|url|min-order|tax|offer-type|delivery-time|LWIN|imageurl\<close>,
  every line including the last is followed by one newline, and with no usable row the
  text is the header and its newline only.
\<close>

theorem fileContent_layout:
  "fileContent stock usable
     = ''SKU|name|description|vintage|unit-size|price|stock|url|min-order|tax|offer-type|delivery-time|LWIN|imageurl''
       @ [CHR 0x0A] @ concat (map (\<lambda>u. row stock u @ [CHR 0x0A]) usable)
   \<and> fileContent stock []
     = ''SKU|name|description|vintage|unit-size|price|stock|url|min-order|tax|offer-type|delivery-time|LWIN|imageurl''
       @ [CHR 0x0A]"
proof -
  have c: "concat (map (\<lambda>y. [CHR 0x0A] @ y) xs) @ [CHR 0x0A]
           = [CHR 0x0A] @ concat (map (\<lambda>y. y @ [CHR 0x0A]) xs)" for xs :: "string list"
    by (induction xs) auto
  have "fileContent stock us
        = header @ [CHR 0x0A] @ concat (map (\<lambda>u. row stock u @ [CHR 0x0A]) us)" for us
    using c [of "map (row stock) us"]
    by (simp add: fileContent_def feedLines_def linesLoop_eq join_Cons comp_def)
  then show ?thesis by (simp add: header_def)
qed

theorem fileContent_no_rows:
  "fileContent Map.empty []
   = ''SKU|name|description|vintage|unit-size|price|stock|url|min-order|tax|offer-type|delivery-time|LWIN|imageurl''
     @ [CHR 0x0A]"
  using fileContent_layout [of Map.empty "[]"] by simp

text \<open>
  C10. The fields of a row are joined with \<open>|\<close> as they are, nothing is escaped: a usable
  row whose stock-keeping code or display name contains \<open>|\<close> gives a data row that,
  split at \<open>|\<close>, has more than fourteen fields. Such rows exist: a variation with the
  code \<open>A|B\<close> is one.
\<close>

theorem pipe_in_field_adds_columns:
  assumes "usableOf m v = Some u"
    and "CHR ''|'' \<in> set (u_sku u) \<or> CHR ''|'' \<in> set (u_name u)"
  shows "14 < length (split CHR ''|'' (row stock u))"
proof -
  have "1 \<le> countChar CHR ''|'' (u_sku u) + countChar CHR ''|'' (u_name u)"
    using assms(2) countChar_mem [of "CHR ''|''" "u_sku u"]
      countChar_mem [of "CHR ''|''" "u_name u"]
    by auto
  moreover have "13 + (countChar CHR ''|'' (u_sku u) + countChar CHR ''|'' (u_name u))
                 \<le> countChar CHR ''|'' (row stock u)"
    by (simp only: row_def rowFields_def countChar_join) simp
  ultimately show ?thesis by (simp add: length_split)
qed

theorem pipe_in_sku_example:
  "usableOf Map.empty
     \<lparr> v_id = ''V1'', v_item_variation_data = Some \<lparr> vd_item_id = None, vd_sku = Some ''A|B'',
          vd_name = None, vd_price_money = None \<rparr> \<rparr>
   = Some \<lparr> u_sku = ''A|B'', u_name = ''A|B'', u_variationId = ''V1'', u_price = ''0.00'',
            u_imageUrl = None \<rparr>
   \<and> CHR ''|'' \<in> set ''A|B''
   \<and> 14 < length (split CHR ''|''
              (row Map.empty \<lparr> u_sku = ''A|B'', u_name = ''A|B'', u_variationId = ''V1'',
                               u_price = ''0.00'', u_imageUrl = None \<rparr>))"
proof -
  have h: "usableOf Map.empty
     \<lparr> v_id = ''V1'', v_item_variation_data = Some \<lparr> vd_item_id = None, vd_sku = Some ''A|B'',
          vd_name = None, vd_price_money = None \<rparr> \<rparr>
   = Some \<lparr> u_sku = ''A|B'', u_name = ''A|B'', u_variationId = ''V1'', u_price = ''0.00'',
            u_imageUrl = None \<rparr>"
    by code_simp
  show ?thesis using h pipe_in_field_adds_columns [OF h, of Map.empty] by simp
qed

section \<open>Decimal numerals\<close>





















section \<open>Price conversion\<close>



section \<open>Vintage\<close>

lemma isDigit_isWordChar: "isDigit c \<Longrightarrow> isWordChar c"
  by (auto simp: isDigit_def isWordChar_def)

lemma length4: "length t = 4 \<Longrightarrow> \<exists>a b c d. t = [a, b, c, d]"
  by (cases t; cases "tl t"; cases "tl (tl t)"; cases "tl (tl (tl t))") auto

lemma wordBoundary_headOpt:
  "isWordChar c \<Longrightarrow> wordBoundary (Some c) (headOpt post) \<longleftrightarrow> rightOk post"
  by (cases post) (auto simp: wordBoundary_def headOpt_def rightOk_def)

lemma wordBoundary_prev:
  "isWordChar c \<Longrightarrow> wordBoundary prev (Some c) \<longleftrightarrow> \<not> wordPrev prev"
  by (auto simp: wordBoundary_def wordPrev_def)

lemma headOpt_Cons: "headOpt (c # cs) = Some c"
  by (simp add: headOpt_def)

lemma matchHere_Nil: "matchHere prev [] = None"
  by (simp add: matchHere_def)

lemma matchHere_vintage:
  assumes "isVintageToken [a, b, c, d]"
  shows "matchHere prev (a # b # c # d # post) =
           (if \<not> wordPrev prev \<and> rightOk post then Some [a, b, c, d] else None)"
proof -
  have "isWordChar a" "isWordChar d" "isDigit c" "isDigit d"
    using assms by (auto simp: isVintageToken_def isDigit_isWordChar)
  moreover have "[a, b] = ''18'' \<or> [a, b] = ''19'' \<or> [a, b] = ''20''"
    using assms by (simp add: isVintageToken_def)
  ultimately show ?thesis
    by (simp add: matchHere_def headOpt_Cons wordBoundary_prev wordBoundary_headOpt)
qed

lemma matchHere_Some:
  assumes "matchHere prev s = Some t"
  shows "isVintageToken t \<and> \<not> wordPrev prev \<and> (\<exists>post. s = t @ post \<and> rightOk post)"
proof -
  from assms obtain a b c d post where s: "s = a # b # c # d # post"
    by (auto simp: matchHere_def split: if_splits list.splits)
  from assms have cond: "[a, b] = ''18'' \<or> [a, b] = ''19'' \<or> [a, b] = ''20''"
    "isDigit c" "isDigit d" and t: "t = [a, b, c, d]"
    unfolding s by (auto simp: matchHere_def split: if_splits)
  have "isDigit a" "isDigit b" using cond(1) by (auto simp: isDigit_def)
  then have v: "isVintageToken [a, b, c, d]" using cond by (simp add: isVintageToken_def)
  from assms show ?thesis unfolding s t matchHere_vintage [OF v]
    using v by (auto split: if_splits)
qed

lemma matchHere_None:
  assumes "matchHere prev s = None" "isVintageToken t" "s = t @ post" "rightOk post"
  shows "wordPrev prev"
proof -
  from assms(2) have "length t = 4" by (simp add: isVintageToken_def)
  then obtain a b c d where t: "t = [a, b, c, d]" using length4 by blast
  show ?thesis using assms unfolding t by (auto simp: matchHere_vintage split: if_splits)
qed

lemma search_Some:
  "search prev s = Some t \<Longrightarrow>
     \<exists>pre post. s = pre @ t @ post \<and> isVintageToken t \<and> leftOk prev pre \<and> rightOk post
       \<and> (\<forall>pre' t' post'. s = pre' @ t' @ post' \<and> isVintageToken t' \<and> leftOk prev pre'
             \<and> rightOk post' \<longrightarrow> length pre \<le> length pre')"
proof (induction s arbitrary: prev)
  case Nil
  then show ?case by (simp add: matchHere_Nil)
next
  case (Cons c cs)
  show ?case
  proof (cases "matchHere prev (c # cs)")
    case (Some m)
    then have "m = t" using Cons.prems by simp
    then obtain post where "isVintageToken t" "\<not> wordPrev prev" "c # cs = t @ post" "rightOk post"
      using matchHere_Some [OF Some] by blast
    then have "c # cs = [] @ t @ post \<and> isVintageToken t \<and> leftOk prev [] \<and> rightOk post
       \<and> (\<forall>pre' t' post'. c # cs = pre' @ t' @ post' \<and> isVintageToken t' \<and> leftOk prev pre'
             \<and> rightOk post' \<longrightarrow> length ([]::string) \<le> length pre')"
      by (simp add: leftOk_def)
    then show ?thesis by blast
  next
    case None
    then have "search (Some c) cs = Some t" using Cons.prems by simp
    then obtain pre post where p: "cs = pre @ t @ post" "isVintageToken t" "leftOk (Some c) pre"
      "rightOk post"
      and least: "\<And>pre' t' post'. cs = pre' @ t' @ post' \<Longrightarrow> isVintageToken t'
          \<Longrightarrow> leftOk (Some c) pre' \<Longrightarrow> rightOk post' \<Longrightarrow> length pre \<le> length pre'"
      using Cons.IH [of "Some c"] by blast
    have left: "leftOk prev (c # pre)"
      using p(3) by (auto simp: leftOk_def wordPrev_def)
    have "length (c # pre) \<le> length pre'"
      if h: "c # cs = pre' @ t' @ post'" "isVintageToken t'" "leftOk prev pre'" "rightOk post'"
      for pre' t' post'
    proof (cases pre')
      case Nil
      then have "wordPrev prev" using matchHere_None [OF None h(2) _ h(4)] h(1) by simp
      then show ?thesis using h(3) Nil by (simp add: leftOk_def)
    next
      case (Cons x pre'')
      then have "cs = pre'' @ t' @ post'" "x = c" using h(1) by auto
      moreover have "leftOk (Some c) pre''"
        using h(3) Cons \<open>x = c\<close> by (auto simp: leftOk_def wordPrev_def)
      ultimately have "length pre \<le> length pre''" using least h(2) h(4) by blast
      then show ?thesis using Cons by simp
    qed
    then have "c # cs = (c # pre) @ t @ post \<and> isVintageToken t \<and> leftOk prev (c # pre)
       \<and> rightOk post
       \<and> (\<forall>pre' t' post'. c # cs = pre' @ t' @ post' \<and> isVintageToken t' \<and> leftOk prev pre'
             \<and> rightOk post' \<longrightarrow> length (c # pre) \<le> length pre')"
      using p left by auto
    then show ?thesis by blast
  qed
qed

lemma search_None:
  "search prev s = None \<Longrightarrow> s = pre @ t @ post \<Longrightarrow> isVintageToken t \<Longrightarrow> rightOk post
   \<Longrightarrow> \<not> leftOk prev pre"
proof (induction s arbitrary: prev pre)
  case Nil
  then show ?case by (simp add: isVintageToken_def)
next
  case (Cons c cs)
  from Cons.prems(1) have mh: "matchHere prev (c # cs) = None" and rest: "search (Some c) cs = None"
    by (auto split: option.splits)
  show ?case
  proof (cases pre)
    case Nil
    then have "wordPrev prev" using matchHere_None [OF mh Cons.prems(3) _ Cons.prems(4)] Cons.prems(2)
      by simp
    then show ?thesis using Nil by (simp add: leftOk_def)
  next
    case (Cons x pre')
    then have "cs = pre' @ t @ post" "x = c" using Cons.prems(2) by auto
    then have "\<not> leftOk (Some c) pre'"
      using Cons.IH [OF rest _ Cons.prems(3) Cons.prems(4)] by blast
    then show ?thesis using Cons \<open>x = c\<close> by (auto simp: leftOk_def wordPrev_def)
  qed
qed

lemma leftOk_None: "leftOk None pre \<longleftrightarrow> (pre = [] \<or> \<not> isWordChar (last pre))"
  by (simp add: leftOk_def wordPrev_def)

text \<open>
  C3. For every display name, vintage inference returns the first four-digit token whose
  first two digits are 18, 19 or 20, wherever in the name it stands, as it is written;
  when the name has no such token the result is \<open>NV\<close>. A token is an occurrence that no
  letter, digit or underscore touches: the two \<open>\b\<close> of the pattern. First means that
  no other such occurrence starts further left.
\<close>

theorem guessVintage_first_token:
  "(\<forall>pre t post.
      name = pre @ t @ post \<and> isVintageToken t \<and> standsAlone pre post
      \<and> (\<forall>pre' t' post'. name = pre' @ t' @ post' \<and> isVintageToken t' \<and> standsAlone pre' post'
            \<longrightarrow> length pre \<le> length pre')
      \<longrightarrow> guessVintage name = t)
   \<and> ((\<nexists>pre t post. name = pre @ t @ post \<and> isVintageToken t \<and> standsAlone pre post)
      \<longrightarrow> guessVintage name = ''NV'')"
proof (intro conjI allI impI)
  fix pre t post
  assume a: "name = pre @ t @ post \<and> isVintageToken t \<and> standsAlone pre post
      \<and> (\<forall>pre' t' post'. name = pre' @ t' @ post' \<and> isVintageToken t' \<and> standsAlone pre' post'
            \<longrightarrow> length pre \<le> length pre')"
  then have lo: "leftOk None pre" "rightOk post"
    by (simp_all add: standsAlone_def leftOk_None rightOk_def)
  have "search None name \<noteq> None"
    using search_None [of None name pre t post] a lo by auto
  then obtain t1 where s: "search None name = Some t1" by auto
  then obtain pre1 post1 where p1: "name = pre1 @ t1 @ post1" "isVintageToken t1"
    "leftOk None pre1" "rightOk post1"
    and least1: "\<And>pre' t' post'. name = pre' @ t' @ post' \<Longrightarrow> isVintageToken t'
          \<Longrightarrow> leftOk None pre' \<Longrightarrow> rightOk post' \<Longrightarrow> length pre1 \<le> length pre'"
    using search_Some [OF s] by blast
  have "standsAlone pre1 post1" using p1 by (simp add: standsAlone_def leftOk_None rightOk_def)
  then have "length pre \<le> length pre1" using a p1 by blast
  moreover have "length pre1 \<le> length pre" using least1 a lo by blast
  ultimately have "length pre = length pre1" by simp
  moreover have "pre @ t @ post = pre1 @ t1 @ post1" using a p1 by simp
  ultimately have "pre = pre1" "t @ post = t1 @ post1" by auto
  moreover have "length t = length t1" using a p1 by (simp add: isVintageToken_def)
  ultimately have "t = t1" by auto
  then show "guessVintage name = t" using s by (simp add: guessVintage_def)
next
  assume n: "\<nexists>pre t post. name = pre @ t @ post \<and> isVintageToken t \<and> standsAlone pre post"
  have "search None name = None"
  proof (rule ccontr)
    assume "search None name \<noteq> None"
    then obtain t1 where s: "search None name = Some t1" by auto
    then obtain pre1 post1 where "name = pre1 @ t1 @ post1" "isVintageToken t1"
      "leftOk None pre1" "rightOk post1"
      using search_Some [OF s] by blast
    then have "name = pre1 @ t1 @ post1 \<and> isVintageToken t1 \<and> standsAlone pre1 post1"
      by (simp add: standsAlone_def leftOk_None rightOk_def)
    then show False using n by blast
  qed
  then show "guessVintage name = ''NV''" by (simp add: guessVintage_def)
qed


text \<open>
  In \<open>X 1999\<close> the token is \<open>1999\<close>, and no window further left is one; the empty
  name has no token.
\<close>

theorem guessVintage_examples: "guessVintage ''X 1999'' = ''1999'' \<and> guessVintage [] = ''NV''"
proof
  have v: "isVintageToken ''1999''" by (simp add: isVintageToken_def isDigit_def)
  have sa: "standsAlone ''X '' []" by (simp add: standsAlone_def isWordChar_def)
  have least: "length ''X '' \<le> length pre'"
    if h: "''X 1999'' = pre' @ t' @ post' \<and> isVintageToken t' \<and> standsAlone pre' post'"
    for pre' t' post'
  proof (rule ccontr)
    assume "\<not> length ''X '' \<le> length pre'"
    then consider "pre' = []" | x where "pre' = [x]"
      by (cases pre'; cases "tl pre'") auto
    moreover obtain a b c d where t': "t' = [a, b, c, d]"
      using h length4 [of t'] by (auto simp: isVintageToken_def)
    ultimately show False using h by cases (auto simp: isVintageToken_def isDigit_def)
  qed
  have a: "''X 1999'' = ''X '' @ ''1999'' @ []" by simp
  have l: "\<forall>pre' t' post'. ''X 1999'' = pre' @ t' @ post' \<and> isVintageToken t'
               \<and> standsAlone pre' post' \<longrightarrow> length ''X '' \<le> length pre'"
    by (intro allI impI) (erule least)
  show "guessVintage ''X 1999'' = ''1999''"
    by (rule guessVintage_first_token [of "''X 1999''", THEN conjunct1, rule_format, of "''X ''" "''1999''" "[]"])
       (intro conjI a v sa l)
next
  have "\<nexists>pre t post. [] = pre @ t @ post \<and> isVintageToken t \<and> standsAlone pre post"
    by (auto simp: isVintageToken_def)
  then show "guessVintage [] = ''NV''"
    by (rule guessVintage_first_token [of "[]", THEN conjunct2, rule_format])
qed

lemma guessVintage_Barolo: "guessVintage ''Barolo 2015 Riserva'' = ''2015''"
  by (simp add: guessVintage_def matchHere_def wordBoundary_def headOpt_def isWordChar_def
      isDigit_def)

section \<open>Inventory join\<close>

lemma find_snoc:
  "find P (xs @ [x]) = (case find P xs of None \<Rightarrow> (if P x then Some x else None) | Some y \<Rightarrow> Some y)"
  by (induction xs) auto



















section \<open>Catalog join: the display name\<close>

lemma itemNames_lookup:
  "itemNames rel m i =
     (case lastItem rel i of
        None \<Rightarrow> m i
      | Some obj \<Rightarrow> Some (orEmpty (case r_item_data obj of None \<Rightarrow> None | Some it \<Rightarrow> i_name it)))"
proof (induction rel arbitrary: m)
  case Nil
  show ?case by (simp add: lastItem_def)
next
  case (Cons obj rel)
  show ?case
    by (simp add: Cons lastItem_def find_snoc split: option.splits)
qed

lemma trim_isTrimOf: "isTrimOf (trim s) s"
proof -
  define pre where "pre = takeWhile isWhiteSpace s"
  define a where "a = dropWhile isWhiteSpace s"
  define post where "post = rev (takeWhile isWhiteSpace (rev a))"
  have t: "trim s = rev (dropWhile isWhiteSpace (rev a))" by (simp add: trim_def a_def)
  have "rev (takeWhile isWhiteSpace (rev a) @ dropWhile isWhiteSpace (rev a)) = a" by simp
  then have "rev (dropWhile isWhiteSpace (rev a)) @ rev (takeWhile isWhiteSpace (rev a)) = a"
    by (simp only: rev_append)
  then have a: "a = trim s @ post" by (simp only: t post_def)
  have s: "s = pre @ trim s @ post"
    by (subst a [symmetric]) (simp add: pre_def a_def)
  have p1: "list_all isWhiteSpace pre"
    unfolding pre_def list_all_iff by (auto dest: set_takeWhileD)
  have p2: "list_all isWhiteSpace post"
    unfolding post_def list_all_iff by (auto dest: set_takeWhileD)
  have ends: "\<not> isWhiteSpace (hd (trim s)) \<and> \<not> isWhiteSpace (last (trim s))" if ne: "trim s \<noteq> []"
  proof
    have "a \<noteq> []" using a ne by auto
    then have "\<not> isWhiteSpace (hd a)" unfolding a_def by (rule hd_dropWhile)
    moreover have "hd a = hd (trim s)" using a ne by (metis hd_append2)
    ultimately show "\<not> isWhiteSpace (hd (trim s))" by simp
    have "dropWhile isWhiteSpace (rev a) \<noteq> []" using ne t by simp
    then have "\<not> isWhiteSpace (hd (dropWhile isWhiteSpace (rev a)))" by (rule hd_dropWhile)
    then show "\<not> isWhiteSpace (last (trim s))" by (simp add: t last_rev)
  qed
  show ?thesis unfolding isTrimOf_def
  proof (intro exI conjI)
    show "s = pre @ trim s @ post" by (rule s)
    show "list_all isWhiteSpace pre" by (rule p1)
    show "list_all isWhiteSpace post" by (rule p2)
    show "trim s = [] \<or> (\<not> isWhiteSpace (hd (trim s)) \<and> \<not> isWhiteSpace (last (trim s)))"
      using ends by blast
  qed
qed

lemma usableOf_name:
  assumes "usableOf (itemNames rel Map.empty) v = Some u"
  shows "composedFrom rel v u"
proof -
  from assms obtain d sk where d: "v_item_variation_data v = Some d" "vd_sku d = Some sk" "sk \<noteq> []"
    by (auto simp: usableOf_def Let_def split: option.splits if_splits)
  have item: "orEmpty (case vd_item_id d of None \<Rightarrow> None | Some i \<Rightarrow> itemNames rel Map.empty i)
              = parentName rel v"
    by (simp add: parentName_def d itemNames_lookup orEmpty_def split: option.splits)
  have var: "orEmpty (vd_name d) = variationName v" by (simp add: variationName_def d)
  have lower: "toLowerCase ''regular'' = ''regular''" by code_simp
  define full where "full = composeName (parentName rel v) (variationName v)"
  have "Some u = Some \<lparr> u_sku = sk, u_name = (if full = [] then sk else full),
                           u_variationId = v_id v,
                           u_price = centsToDollars (case vd_price_money d of None \<Rightarrow> None
                                                     | Some pm \<Rightarrow> amount pm),
                           u_imageUrl = None \<rparr>"
    unfolding assms [symmetric] full_def item [symmetric] var [symmetric]
    by (simp add: usableOf_def Let_def d)
  then have u: "u_sku u = sk" "u_name u = (if full = [] then sk else full)"
    by simp_all
  have "isTrimOf full
          (if variationName v \<noteq> [] \<and> \<not> equalsIgnoringCase (variationName v) ''regular''
           then parentName rel v @ '' '' @ variationName v
           else parentName rel v)"
    by (simp add: full_def composeName_def equalsIgnoringCase_def lower trim_isTrimOf)
  then show ?thesis unfolding composedFrom_def using u
    by (intro exI [of _ full] conjI) simp_all
qed

lemma usableOf_name_nonempty: "usableOf m v = Some u \<Longrightarrow> u_name u \<noteq> []"
  by (auto simp: usableOf_def Let_def split: option.splits if_splits)

text \<open>
  C6. Every usable row comes from a variation record with that stock-keeping code, and
  its display name is composed so: when the variation name is non-empty and not equal to
  \<open>regular\<close> up to case, take the parent item name, a space and the variation name,
  otherwise the parent item name alone (empty when the related objects have no such
  item); strip the white space at both ends; and when nothing is left, take the
  stock-keeping code. The name of a usable row is never empty.
\<close>

theorem display_name_composed:
  assumes "u \<in> set (catalogJoin cat)"
  shows "u_name u \<noteq> []
         \<and> (\<exists>v \<in> set (orNil (objects cat)).
               usableSku v = Some (u_sku u) \<and> u_variationId u = v_id v
               \<and> composedFrom (orNil (related_objects cat)) v u)"
proof -
  from assms obtain v where v: "v \<in> set (orNil (objects cat))"
    and uo: "usableOf (itemNames (orNil (related_objects cat)) Map.empty) v = Some u"
    by (auto simp: catalogJoin_eq in_map_filter)
  have "usableSku v = Some (u_sku u)" using uo by (rule usableOf_Some_sku)
  moreover have "u_variationId u = v_id v" using uo by (rule usableOf_Some_id)
  moreover have "composedFrom (orNil (related_objects cat)) v u" using uo by (rule usableOf_name)
  moreover have "u_name u \<noteq> []" using uo by (rule usableOf_name_nonempty)
  ultimately show ?thesis using v by blast
qed


text \<open>
  In \<open>exCatalog\<close> the variation \<open>Magnum\<close> is appended, \<open>REGULAR\<close> is not, and the third
  record, whose parent is not among the related objects, is named by its code.
\<close>

lemma exCatalog_rows:
  "catalogJoin exCatalog =
     [\<lparr> u_sku = ''S1'', u_name = ''Chateau Test Magnum'', u_variationId = ''V1'',
         u_price = ''0.00'', u_imageUrl = None \<rparr>,
      \<lparr> u_sku = ''S2'', u_name = ''Chateau Test'', u_variationId = ''V2'',
         u_price = ''0.00'', u_imageUrl = None \<rparr>,
      \<lparr> u_sku = ''S3'', u_name = ''S3'', u_variationId = ''V3'',
         u_price = ''0.00'', u_imageUrl = None \<rparr>]"
  by code_simp

theorem display_name_fallback_example:
  "\<lparr> u_sku = ''S3'', u_name = ''S3'', u_variationId = ''V3'', u_price = ''0.00'',
      u_imageUrl = None \<rparr> \<in> set (catalogJoin exCatalog)
   \<and> (\<exists>v \<in> set (orNil (objects exCatalog)).
         usableSku v = Some ''S3'' \<and> v_id v = ''V3''
         \<and> composedFrom (orNil (related_objects exCatalog)) v
              \<lparr> u_sku = ''S3'', u_name = ''S3'', u_variationId = ''V3'', u_price = ''0.00'',
                 u_imageUrl = None \<rparr>)"
proof -
  have h: "\<lparr> u_sku = ''S3'', u_name = ''S3'', u_variationId = ''V3'', u_price = ''0.00'',
      u_imageUrl = None \<rparr> \<in> set (catalogJoin exCatalog)"
    by (simp add: exCatalog_rows)
  show ?thesis using h display_name_composed [OF h] by auto
qed

section \<open>Failures\<close>

lemma main_unfold:
  "main w t l =
     (case snd (squareFetch w t ''/v2/catalog/search''
                  (Some (CatalogSearch [''ITEM_VARIATION''] True 1000)) (w_parseCatalog w)) of
        Inl e \<Rightarrow> ([Fetch (catalogRequest t)], Inl e)
      | Inr cat \<Rightarrow>
          (case snd (squareFetch w t ''/v2/inventory/batch-retrieve-counts''
                  (Some (RetrieveCounts (map u_variationId (catalogJoin cat)) [l] [''IN_STOCK'']))
                  (w_parseInventory w)) of
             Inl e \<Rightarrow> ([Fetch (catalogRequest t), Fetch (inventoryRequest t l (catalogJoin cat))],
                       Inl e)
           | Inr invResp \<Rightarrow>
               (case w_writeFileSync w OUT (fileContent (stockByVarId invResp) (catalogJoin cat)) of
                  Some e \<Rightarrow> ([Fetch (catalogRequest t),
                              Fetch (inventoryRequest t l (catalogJoin cat))], Inl e)
                | None \<Rightarrow> ([Fetch (catalogRequest t),
                             Fetch (inventoryRequest t l (catalogJoin cat)),
                             WriteFile OUT (fileContent (stockByVarId invResp) (catalogJoin cat)),
                             ConsoleLog (successLog (length (catalogJoin cat)))], Inr ()))))"
  by (simp add: main_def squareFetch_def Let_def catalogRequest_def inventoryRequest_def
      successLog_def split: sum.splits option.splits)

lemma squareFetch_answered:
  "answered w (requestOf t p b) parse (snd (squareFetch w t p b parse))"
  by (auto simp: answered_def squareFetch_def Let_def apiError_def split: sum.splits)

lemma main_cases:
  fixes w t l
  defines "rq1 \<equiv> catalogRequest t"
  shows
   "(\<exists>e. answered w rq1 (w_parseCatalog w) (Inl e) \<and> main w t l = ([Fetch rq1], Inl e))
    \<or> (\<exists>cat e. answered w rq1 (w_parseCatalog w) (Inr cat)
          \<and> answered w (inventoryRequest t l (catalogJoin cat)) (w_parseInventory w) (Inl e)
          \<and> main w t l = ([Fetch rq1, Fetch (inventoryRequest t l (catalogJoin cat))], Inl e))
    \<or> (\<exists>cat invResp e. answered w rq1 (w_parseCatalog w) (Inr cat)
          \<and> answered w (inventoryRequest t l (catalogJoin cat)) (w_parseInventory w) (Inr invResp)
          \<and> w_writeFileSync w OUT (fileContent (stockByVarId invResp) (catalogJoin cat)) = Some e
          \<and> main w t l = ([Fetch rq1, Fetch (inventoryRequest t l (catalogJoin cat))], Inl e))
    \<or> (\<exists>cat invResp. answered w rq1 (w_parseCatalog w) (Inr cat)
          \<and> answered w (inventoryRequest t l (catalogJoin cat)) (w_parseInventory w) (Inr invResp)
          \<and> w_writeFileSync w OUT (fileContent (stockByVarId invResp) (catalogJoin cat)) = None
          \<and> main w t l = ([Fetch rq1, Fetch (inventoryRequest t l (catalogJoin cat)),
                            WriteFile OUT (fileContent (stockByVarId invResp) (catalogJoin cat)),
                            ConsoleLog (successLog (length (catalogJoin cat)))], Inr ()))"
proof -
  define r1 where "r1 = snd (squareFetch w t ''/v2/catalog/search''
                  (Some (CatalogSearch [''ITEM_VARIATION''] True 1000)) (w_parseCatalog w))"
  have a1: "answered w rq1 (w_parseCatalog w) r1"
    unfolding r1_def rq1_def catalogRequest_def by (rule squareFetch_answered)
  show ?thesis
  proof (cases r1)
    case (Inl e)
    then have e1: "snd (squareFetch w t ''/v2/catalog/search''
                  (Some (CatalogSearch [''ITEM_VARIATION''] True 1000)) (w_parseCatalog w)) = Inl e"
      unfolding r1_def .
    have "main w t l = ([Fetch rq1], Inl e)"
      by (simp add: main_unfold e1 rq1_def)
    then show ?thesis using a1 Inl by blast
  next
    case (Inr cat)
    then have e1: "snd (squareFetch w t ''/v2/catalog/search''
                  (Some (CatalogSearch [''ITEM_VARIATION''] True 1000)) (w_parseCatalog w)) = Inr cat"
      unfolding r1_def .
    define r2 where "r2 = snd (squareFetch w t ''/v2/inventory/batch-retrieve-counts''
                  (Some (RetrieveCounts (map u_variationId (catalogJoin cat)) [l] [''IN_STOCK'']))
                  (w_parseInventory w))"
    have a2: "answered w (inventoryRequest t l (catalogJoin cat)) (w_parseInventory w) r2"
      unfolding r2_def inventoryRequest_def by (rule squareFetch_answered)
    show ?thesis
    proof (cases r2)
      case (Inl e)
      then have e2: "snd (squareFetch w t ''/v2/inventory/batch-retrieve-counts''
                  (Some (RetrieveCounts (map u_variationId (catalogJoin cat)) [l] [''IN_STOCK'']))
                  (w_parseInventory w)) = Inl e"
        unfolding r2_def .
      have "main w t l = ([Fetch rq1, Fetch (inventoryRequest t l (catalogJoin cat))], Inl e)"
        by (simp add: main_unfold e1 e2 rq1_def)
      then show ?thesis using a1 a2 Inl \<open>r1 = Inr cat\<close> by blast
    next
      case r2: (Inr invResp)
      then have e2: "snd (squareFetch w t ''/v2/inventory/batch-retrieve-counts''
                  (Some (RetrieveCounts (map u_variationId (catalogJoin cat)) [l] [''IN_STOCK'']))
                  (w_parseInventory w)) = Inr invResp"
        unfolding r2_def .
      show ?thesis
      proof (cases "w_writeFileSync w OUT (fileContent (stockByVarId invResp) (catalogJoin cat))")
        case None
        have "main w t l = ([Fetch rq1, Fetch (inventoryRequest t l (catalogJoin cat)),
                            WriteFile OUT (fileContent (stockByVarId invResp) (catalogJoin cat)),
                            ConsoleLog (successLog (length (catalogJoin cat)))], Inr ())"
          by (simp add: main_unfold e1 e2 None rq1_def)
        then show ?thesis using a1 a2 r2 None \<open>r1 = Inr cat\<close> by blast
      next
        case (Some e)
        have "main w t l = ([Fetch rq1, Fetch (inventoryRequest t l (catalogJoin cat))], Inl e)"
          by (simp add: main_unfold e1 e2 Some rq1_def)
        then show ?thesis using a1 a2 r2 Some \<open>r1 = Inr cat\<close> by blast
      qed
    qed
  qed
qed


lemma program_outcome:
  assumes "\<not> missing TOKEN" "\<not> missing LOCATION_ID"
  shows "outcome w (orEmpty TOKEN) (orEmpty LOCATION_ID) (program w TOKEN LOCATION_ID)"
proof -
  have p: "program w TOKEN LOCATION_ID
           = (case main w (orEmpty TOKEN) (orEmpty LOCATION_ID) of
                (evs, Inl e) \<Rightarrow> (evs @ [ConsoleError e], 1)
              | (evs, Inr _) \<Rightarrow> (evs, 0))"
    using assms by (simp only: program_def simp_thms if_False)
  show ?thesis
    using main_cases [of w "orEmpty TOKEN" "orEmpty LOCATION_ID"]
    unfolding outcome_def p
    by (elim disjE exE conjE) (simp_all, blast+)
qed

lemma outcome_no_write:
  "outcome w t l run \<Longrightarrow> snd run \<noteq> 0 \<Longrightarrow> filter isWriteFile (fst run) = []"
  unfolding outcome_def by (elim disjE exE conjE) (simp_all add: isWriteFile_def)

lemma outcome_fetches: "outcome w t l run \<Longrightarrow> length (filter isFetch (fst run)) \<le> 2"
  unfolding outcome_def by (elim disjE exE conjE) (simp_all add: isFetch_def)

lemma program_missing:
  "missing TOKEN \<or> missing LOCATION_ID \<Longrightarrow>
   program w TOKEN LOCATION_ID
     = ([Uncaught (Error ''Missing SQUARE_ACCESS_TOKEN or SQUARE_LOCATION_ID secrets.'')], 1)"
  by (simp add: program_def)

text \<open>
  C9. When either credential is absent the program fails at once: its only event is the
  configuration error, no request is sent and no file is written. Otherwise no error is
  caught or retried inside the pipeline, and a run goes one of four ways. If the first
  request is rejected, answered with a response that is not ok, or answered with a body
  that does not parse, that error is logged and the status is 1; for a response that is
  not ok the error carries the status code and the raw body. If the second request fails
  in one of these ways, or the write throws, the same holds. Only when nothing fails is
  the whole feed written, once, and the status 0. So a run with a status other than 0 has
  written no file, and no run sends more than the two requests.
\<close>

theorem failures_propagate:
  "(missing TOKEN \<or> missing LOCATION_ID \<longrightarrow>
      program w TOKEN LOCATION_ID
        = ([Uncaught (Error ''Missing SQUARE_ACCESS_TOKEN or SQUARE_LOCATION_ID secrets.'')], 1))
   \<and> (\<not> missing TOKEN \<and> \<not> missing LOCATION_ID \<longrightarrow>
        outcome w (orEmpty TOKEN) (orEmpty LOCATION_ID) (program w TOKEN LOCATION_ID))
   \<and> (snd (program w TOKEN LOCATION_ID) \<noteq> 0 \<longrightarrow>
        filter isWriteFile (fst (program w TOKEN LOCATION_ID)) = [])
   \<and> length (filter isFetch (fst (program w TOKEN LOCATION_ID))) \<le> 2"
proof (intro conjI impI)
  assume "missing TOKEN \<or> missing LOCATION_ID"
  then show "program w TOKEN LOCATION_ID
        = ([Uncaught (Error ''Missing SQUARE_ACCESS_TOKEN or SQUARE_LOCATION_ID secrets.'')], 1)"
    by (rule program_missing)
next
  assume "\<not> missing TOKEN \<and> \<not> missing LOCATION_ID"
  then show "outcome w (orEmpty TOKEN) (orEmpty LOCATION_ID) (program w TOKEN LOCATION_ID)"
    by (simp add: program_outcome)
next
  assume s: "snd (program w TOKEN LOCATION_ID) \<noteq> 0"
  show "filter isWriteFile (fst (program w TOKEN LOCATION_ID)) = []"
  proof (cases "missing TOKEN \<or> missing LOCATION_ID")
    case True
    then show ?thesis by (simp add: program_missing isWriteFile_def)
  next
    case False
    then have "outcome w (orEmpty TOKEN) (orEmpty LOCATION_ID) (program w TOKEN LOCATION_ID)"
      by (simp add: program_outcome)
    then show ?thesis using s by (rule outcome_no_write)
  qed
next
  show "length (filter isFetch (fst (program w TOKEN LOCATION_ID))) \<le> 2"
  proof (cases "missing TOKEN \<or> missing LOCATION_ID")
    case True
    then show ?thesis by (simp add: program_missing isFetch_def)
  next
    case False
    then have "outcome w (orEmpty TOKEN) (orEmpty LOCATION_ID) (program w TOKEN LOCATION_ID)"
      by (simp add: program_outcome)
    then show ?thesis by (rule outcome_fetches)
  qed
qed

text \<open>
  A world that answers 401: the status is not 0 and nothing is written. Without the
  access token the run is the configuration error alone.
\<close>

lemma unauthorized_run:
  "program unauthorizedWorld (Some ''token'') (Some ''L1'')
   = ([Fetch (catalogRequest ''token''), ConsoleError (Error ''Square API 401: Unauthorized'')], 1)"
  by (simp add: program_def main_def squareFetch_def unauthorizedWorld_def missing_def orEmpty_def
      catalogRequest_def natDigits.simps digitChar_def Let_def)

theorem failures_propagate_examples:
  "snd (program unauthorizedWorld (Some ''token'') (Some ''L1'')) \<noteq> 0
   \<and> filter isWriteFile (fst (program unauthorizedWorld (Some ''token'') (Some ''L1''))) = []
   \<and> (missing None \<or> missing (Some ''L1''))
   \<and> program unauthorizedWorld None (Some ''L1'')
       = ([Uncaught (Error ''Missing SQUARE_ACCESS_TOKEN or SQUARE_LOCATION_ID secrets.'')], 1)"
proof -
  have h: "snd (program unauthorizedWorld (Some ''token'') (Some ''L1'')) \<noteq> 0"
    by (simp add: unauthorized_run)
  have m: "missing None \<or> missing (Some ''L1'')" by (simp add: missing_def)
  show ?thesis
    using h m failures_propagate [of "Some ''token''" "Some ''L1''" unauthorizedWorld]
      failures_propagate [of None "Some ''L1''" unauthorizedWorld]
    by blast
qed

section \<open>The end-to-end scenario\<close>

lemma scenario_composeName: "composeName ''Chateau Test'' ''Regular'' = ''Chateau Test''" by code_simp
lemma scenario_vintage: "guessVintage ''Chateau Test'' = ''NV''" by code_simp
lemma scenario_unitSize: "guessUnitSize ''Chateau Test'' = ''750ml''" by code_simp
lemma scenario_query: "encodeQuery ''Chateau Test'' = ''Chateau%20Test''" by code_simp
lemma scenario_stock: "NumberToString (quantityNumber (Some ''7'')) = ''7''" by code_simp
lemma scenario_price: "centsToDollars (Some 2500) = ''25.00''"
  by (simp add: centsToDollars_def toFixed2_def natDigits.simps digitChar_def)

lemma scenario_usable: "catalogJoin scenarioCatalog = [scenarioRow]"
  by (simp add: catalogJoin_def scenarioCatalog_def scenarioRow_def orNil_def orEmpty_def
      usableOf_def Let_def scenario_composeName scenario_price)

lemma scenario_file: "fileContent (stockByVarId scenarioInventory) [scenarioRow]
   = header @ [CHR 0x0A]
     @ ''ABC123|Chateau Test||NV|750ml|25.00|7|https://www.magazzinonyc.com/s/shop?query=Chateau%20Test||Inc.tax|R|Next day||''
     @ [CHR 0x0A]"
  by (simp add: fileContent_def feedLines_def row_def rowFields_def stockOf_def stockByVarId_def
      scenarioInventory_def scenarioRow_def orNil_def scenario_vintage scenario_unitSize scenario_query scenario_stock TAX_def OFFER_def DELIVERY_def
      SHOP_SEARCH_BASE_def)

lemma scenario_program:
  "program scenarioWorld (Some ''token'') (Some ''L1'')
   = ([Fetch (catalogRequest ''token''),
       Fetch (inventoryRequest ''token'' ''L1'' [scenarioRow]),
       WriteFile ''winesearcher-feed.txt''
        (header @ [CHR 0x0A]
         @ ''ABC123|Chateau Test||NV|750ml|25.00|7|https://www.magazzinonyc.com/s/shop?query=Chateau%20Test||Inc.tax|R|Next day||''
         @ [CHR 0x0A]),
       ConsoleLog ''Wrote winesearcher-feed.txt with 1 rows.''], 0)"
  by (simp add: program_def main_def squareFetch_def catalogRequest_def inventoryRequest_def
      scenarioWorld_def missing_def orEmpty_def scenario_usable scenario_file OUT_def
      natDigits.simps digitChar_def Let_def)

text \<open>
  C1, as the code has it. For the single variation with code \<open>ABC123\<close>, parent item name
  \<open>Chateau Test\<close>, variation name \<open>Regular\<close> and price 2500, and an inventory count of 7,
  the run writes one file: the header line and exactly one data row,
  \<open>ABC123|Chateau Test||NV|750ml|25.00|7|https://www.magazzinonyc.com/s/shop?query=Chateau%20Test||Inc.tax|R|Next day||\<close>,
  with two bars between the name and \<open>NV\<close>: the empty description is one field of
  fourteen.
\<close>

theorem scenario_feed:
  "filter isWriteFile (fst (program scenarioWorld (Some ''token'') (Some ''L1'')))
   = [WriteFile ''winesearcher-feed.txt''
        (header @ [CHR 0x0A]
         @ ''ABC123|Chateau Test||NV|750ml|25.00|7|https://www.magazzinonyc.com/s/shop?query=Chateau%20Test||Inc.tax|R|Next day||''
         @ [CHR 0x0A])]
   \<and> snd (program scenarioWorld (Some ''token'') (Some ''L1'')) = 0"
  by (simp add: scenario_program isWriteFile_def isFetch_def)

text \<open>
  The row as the specification writes it has three bars between the name and \<open>NV\<close>,
  which makes fifteen fields; the file written is not that one.
\<close>

theorem scenario_row_with_three_bars:
  "filter isWriteFile (fst (program scenarioWorld (Some ''token'') (Some ''L1'')))
   \<noteq> [WriteFile ''winesearcher-feed.txt''
        (header @ [CHR 0x0A]
         @ ''ABC123|Chateau Test|||NV|750ml|25.00|7|https://www.magazzinonyc.com/s/shop?query=Chateau%20Test||Inc.tax|R|Next day||''
         @ [CHR 0x0A])]"
  by (simp add: scenario_program isWriteFile_def isFetch_def)

text \<open>The run writes exactly one file.\<close>

theorem scenario_one_file:
  "length (filter isWriteFile (fst (program scenarioWorld (Some ''token'') (Some ''L1'')))) = 1"
  using scenario_feed by simp

end
